theory Spec2Isabelle
  imports Main "HOL-Library.Multiset"
begin

section \<open>The todo list controller of \<^verbatim>\<open>src/js/todo.js\<close>\<close>

text \<open>
  The repository holds three copies of the same Model-View-Controller script:
  \<^verbatim>\<open>src/js/todo.js\<close>, and two files joined in \<^verbatim>\<open>src/unnamed/part_000\<close> (an earlier
  version, lines 1-149, and a documented version, lines 150-582). The methods
  \<^verbatim>\<open>loadTodos\<close>, \<^verbatim>\<open>toggleCompleted\<close> and \<^verbatim>\<open>saveTodos\<close> are the same text in all three.
  \<^verbatim>\<open>addTodo\<close> differs in how it numbers the new item, so it is embedded twice.
\<close>

subsection \<open>Data\<close>

text \<open>
  \<^verbatim>\<open>class Todo\<close> (\<^verbatim>\<open>src/js/todo.js\<close>, lines 2-10). The fields \<^verbatim>\<open>id\<close> and \<^verbatim>\<open>text\<close> carry a
  prime here, since both names are taken in Isabelle. An id is a JavaScript number that
  the code only ever builds from an array length, so it is an integer.
\<close>

record todo =
  id' :: int
  text' :: string
  completed :: bool
  priority :: string
  dueDate :: string

text \<open>
  What is thrown: by \<^verbatim>\<open>JSON.parse\<close> a \<^verbatim>\<open>SyntaxError\<close> on text that is not JSON; by
  \<^verbatim>\<open>todos.filter(...)\<close> and \<^verbatim>\<open>todo.completed\<close> a \<^verbatim>\<open>TypeError\<close> when \<^verbatim>\<open>todos\<close> is not an array
  or \<^verbatim>\<open>todo\<close> is \<^verbatim>\<open>null\<close>; by \<^verbatim>\<open>localStorage.setItem\<close> a \<^verbatim>\<open>QuotaExceededError\<close> when the
  browser refuses the write.
\<close>

datatype error = SyntaxError | TypeError | QuotaExceededError

text \<open>
  What \<^verbatim>\<open>JSON.parse\<close> returns for the stored string, as far as the two typed arrays can
  hold it: a value that is not an array, or an array whose elements are \<^verbatim>\<open>null\<close> or Todo
  records. An array with an element of another shape (a number, a string, an object
  with other fields) is not a value of this type; what \<^verbatim>\<open>loadTodos\<close> raises on any JSON
  value at all is embedded separately, as \<open>loadTodos_throws\<close> below.
\<close>

datatype element = Null | Record todo

datatype stored = NotArray | Array "element list"

text \<open>
  The calls the controller makes on its collaborators, in the order it makes them:
  the two render entry points and the two binders of \<^verbatim>\<open>TodoView\<close>, and the write to
  \<^verbatim>\<open>localStorage\<close> under the key \<^verbatim>\<open>"todos"\<close>. The view reads the list handed to it at once
  (it builds the DOM nodes inside the call), so a call records the list as a value.
\<close>

datatype call =
    DisplayTodos "todo list"
  | DisplayCompleted "todo list"
  | SetItem string
  | BindAddTodo
  | BindToggleCompleted

text \<open>
  The controller's two arrays, the string stored under \<^verbatim>\<open>"todos"\<close> (\<open>None\<close> when
  \<^verbatim>\<open>getItem\<close> returns \<^verbatim>\<open>null\<close>), and the calls made so far.

  A todo object is held by one array at a time: \<^verbatim>\<open>JSON.parse\<close> and \<^verbatim>\<open>new Todo\<close> make fresh
  objects, \<^verbatim>\<open>loadTodos\<close> puts each parsed object in one of the two arrays, and
  \<^verbatim>\<open>toggleCompleted\<close> filters the object out of one array before it pushes it on the
  other. So the in-place writes \<^verbatim>\<open>t.completed = ...\<close> never reach an object through a
  second path, and lists of values model the arrays.
\<close>

record app =
  todoList :: "todo list"
  completedList :: "todo list"
  localStorage :: "string option"
  calls :: "call list"

text \<open>
  The browser built-ins the controller calls are not code of the repository; they are
  taken as parameters. \<open>JSON_parse\<close> returns \<open>Inl\<close> when \<^verbatim>\<open>JSON.parse\<close> throws;
  \<open>setItem_accepts\<close> tells whether the browser stores the string or throws.
\<close>

record platform =
  JSON_stringify :: "todo list \<Rightarrow> string"
  JSON_parse :: "string \<Rightarrow> error + stored"
  setItem_accepts :: "string \<Rightarrow> bool"

subsection \<open>The view, as the controller sees it\<close>

definition displayTodos :: "todo list \<Rightarrow> app \<Rightarrow> app" where
  "displayTodos todos s = s\<lparr>calls := calls s @ [DisplayTodos todos]\<rparr>"

definition displayCompleted :: "todo list \<Rightarrow> app \<Rightarrow> app" where
  "displayCompleted todos s = s\<lparr>calls := calls s @ [DisplayCompleted todos]\<rparr>"

subsection \<open>The controller\<close>

text \<open>
  Every method returns the exception it threw, if any, together with the state it left
  behind: a JavaScript exception does not undo the assignments made before it.
\<close>

text \<open>\<^verbatim>\<open>saveTodos\<close> (\<^verbatim>\<open>src/js/todo.js\<close>, lines 71-74).\<close>

definition saveTodos :: "platform \<Rightarrow> app \<Rightarrow> error option \<times> app" where
  "saveTodos P s =
     (let todos = todoList s @ completedList s;
          str = JSON_stringify P todos;
          s1 = s\<lparr>calls := calls s @ [SetItem str]\<rparr>
      in if setItem_accepts P str
         then (None, s1\<lparr>localStorage := Some str\<rparr>)
         else (Some QuotaExceededError, s1))"

text \<open>
  \<^verbatim>\<open>todos.filter((todo) => ... todo.completed ...)\<close> on an array of \<^verbatim>\<open>null\<close>s and records:
  \<^verbatim>\<open>filter\<close> calls the callback on the elements in order, and reading \<^verbatim>\<open>completed\<close> of
  \<^verbatim>\<open>null\<close> throws.
\<close>

fun filter_records :: "(todo \<Rightarrow> bool) \<Rightarrow> element list \<Rightarrow> error + todo list" where
  "filter_records p [] = Inr []"
| "filter_records p (Null # es) = Inl TypeError"
| "filter_records p (Record t # es) =
     (case filter_records p es of
        Inl e \<Rightarrow> Inl e
      | Inr ts \<Rightarrow> Inr (if p t then t # ts else ts))"

text \<open>
  \<^verbatim>\<open>loadTodos\<close> (\<^verbatim>\<open>src/js/todo.js\<close>, lines 25-34). The test \<^verbatim>\<open>if (storedTodos)\<close> is false
  for \<^verbatim>\<open>null\<close> and for the empty string. A value that is not an array has no method
  \<^verbatim>\<open>filter\<close>, so the call on line 29 throws. Each assignment is made after its
  \<^verbatim>\<open>filter\<close> has returned.
\<close>

definition loadTodos :: "platform \<Rightarrow> app \<Rightarrow> error option \<times> app" where
  "loadTodos P s =
     (case localStorage s of
        None \<Rightarrow> (None, s)
      | Some storedTodos \<Rightarrow>
          if storedTodos = [] then (None, s)
          else (case JSON_parse P storedTodos of
                  Inl e \<Rightarrow> (Some e, s)
                | Inr NotArray \<Rightarrow> (Some TypeError, s)
                | Inr (Array todos) \<Rightarrow>
                    (case filter_records (\<lambda>t. \<not> completed t) todos of
                       Inl e \<Rightarrow> (Some e, s)
                     | Inr active \<Rightarrow>
                         let s1 = s\<lparr>todoList := active\<rparr>
                         in (case filter_records (\<lambda>t. completed t) todos of
                               Inl e \<Rightarrow> (Some e, s1)
                             | Inr done \<Rightarrow>
                                 let s2 = s1\<lparr>completedList := done\<rparr>;
                                     s3 = displayTodos (todoList s2) s2;
                                     s4 = displayCompleted (completedList s3) s3
                                 in (None, s4)))))"

text \<open>
  The exception \<^verbatim>\<open>loadTodos\<close> ends with (lines 25-34 again), for every value
  \<^verbatim>\<open>JSON.parse\<close> can return. A JSON value is \<^verbatim>\<open>null\<close>, a boolean, a number (an integer
  here), a string, an array, or an object, given by its properties, one entry for each
  name. Reading \<^verbatim>\<open>completed\<close> of \<^verbatim>\<open>null\<close> throws; of an object it gives the property or
  \<^verbatim>\<open>undefined\<close>; of any other value it gives \<^verbatim>\<open>undefined\<close> (\<open>None\<close>). The callbacks test
  what they read for truthiness. The two render calls raise nothing on values that are
  not \<^verbatim>\<open>null\<close>.
\<close>

datatype json =
    JNull
  | JBool bool
  | JNumber int
  | JString string
  | JArray "json list"
  | JObject "(string \<times> json) list"

fun completed_property :: "json \<Rightarrow> error + json option" where
  "completed_property JNull = Inl TypeError"
| "completed_property (JObject properties) = Inr (map_of properties ''completed'')"
| "completed_property v = Inr None"

fun truthy :: "json option \<Rightarrow> bool" where
  "truthy None = False"
| "truthy (Some JNull) = False"
| "truthy (Some (JBool b)) = b"
| "truthy (Some (JNumber n)) = (n \<noteq> 0)"
| "truthy (Some (JString str)) = (str \<noteq> [])"
| "truthy (Some (JArray vs)) = True"
| "truthy (Some (JObject properties)) = True"

text \<open>
  \<^verbatim>\<open>todos.filter\<close> with the callback \<^verbatim>\<open>(todo) => todo.completed\<close> (\<open>keep\<close> the identity) or
  \<^verbatim>\<open>(todo) => !todo.completed\<close> (\<open>keep\<close> the negation).
\<close>

fun filter_values :: "(bool \<Rightarrow> bool) \<Rightarrow> json list \<Rightarrow> error + json list" where
  "filter_values keep [] = Inr []"
| "filter_values keep (v # vs) =
     (case completed_property v of
        Inl e \<Rightarrow> Inl e
      | Inr c \<Rightarrow>
          (case filter_values keep vs of
             Inl e \<Rightarrow> Inl e
           | Inr ws \<Rightarrow> Inr (if keep (truthy c) then v # ws else ws)))"

definition loadTodos_throws :: "(string \<Rightarrow> error + json) \<Rightarrow> string option \<Rightarrow> error option" where
  "loadTodos_throws parse stored =
     (case stored of
        None \<Rightarrow> None
      | Some storedTodos \<Rightarrow>
          if storedTodos = [] then None
          else (case parse storedTodos of
                  Inl e \<Rightarrow> Some e
                | Inr (JArray todos) \<Rightarrow>
                    (case filter_values (\<lambda>b. \<not> b) todos of
                       Inl e \<Rightarrow> Some e
                     | Inr active \<Rightarrow>
                         (case filter_values (\<lambda>b. b) todos of
                            Inl e \<Rightarrow> Some e
                          | Inr done \<Rightarrow> None))
                | Inr v \<Rightarrow> Some TypeError))"

text \<open>
  A typed value stands for a JSON value: a record for the object with its five
  properties, \<open>NotArray\<close> for any value that is not an array.
\<close>

definition json_of_todo :: "todo \<Rightarrow> json" where
  "json_of_todo t =
     JObject [(''id'', JNumber (id' t)), (''text'', JString (text' t)),
              (''completed'', JBool (completed t)), (''priority'', JString (priority t)),
              (''dueDate'', JString (dueDate t))]"

fun json_of_element :: "element \<Rightarrow> json" where
  "json_of_element Null = JNull"
| "json_of_element (Record t) = json_of_todo t"

fun represents :: "stored \<Rightarrow> json \<Rightarrow> bool" where
  "represents (Array es) (JArray vs) = (vs = map json_of_element es)"
| "represents (Array es) v = False"
| "represents NotArray (JArray vs) = False"
| "represents NotArray v = True"

text \<open>
  \<^verbatim>\<open>addTodo\<close> as \<^verbatim>\<open>src/js/todo.js\<close> has it (lines 36-47): the new id is
  \<^verbatim>\<open>this.todoList.length + 1\<close>. The earlier version in \<^verbatim>\<open>part_000\<close> (lines 33-38) numbers
  the item the same way.
\<close>

definition addTodo :: "platform \<Rightarrow> string \<Rightarrow> string \<Rightarrow> string \<Rightarrow> app \<Rightarrow> error option \<times> app" where
  "addTodo P txt prio due s =
     (let newTodo = \<lparr>id' = int (length (todoList s)) + 1, text' = txt, completed = False,
                      priority = prio, dueDate = due\<rparr>;
          s1 = s\<lparr>todoList := todoList s @ [newTodo]\<rparr>;
          s2 = displayTodos (todoList s1) s1
      in saveTodos P s2)"

text \<open>
  \<^verbatim>\<open>addTodo\<close> as the documented version has it (\<^verbatim>\<open>part_000\<close>, lines 342-348):
  \<^verbatim>\<open>nextId = this.todoList.length + this.completedList.length + 1\<close>.
\<close>

definition addTodo_nextId :: "platform \<Rightarrow> string \<Rightarrow> string \<Rightarrow> string \<Rightarrow> app \<Rightarrow> error option \<times> app" where
  "addTodo_nextId P txt prio due s =
     (let nextId = int (length (todoList s)) + int (length (completedList s)) + 1;
          newTodo = \<lparr>id' = nextId, text' = txt, completed = False,
                      priority = prio, dueDate = due\<rparr>;
          s1 = s\<lparr>todoList := todoList s @ [newTodo]\<rparr>;
          s2 = displayTodos (todoList s1) s1
      in saveTodos P s2)"

text \<open>
  \<^verbatim>\<open>toggleCompleted\<close> (\<^verbatim>\<open>src/js/todo.js\<close>, lines 49-69). \<^verbatim>\<open>Array.find\<close> returns the first
  element with the id, or \<^verbatim>\<open>undefined\<close>; an object is always truthy, so \<^verbatim>\<open>if (todo)\<close>
  asks whether one was found.
\<close>

definition toggleCompleted :: "platform \<Rightarrow> int \<Rightarrow> app \<Rightarrow> error option \<times> app" where
  "toggleCompleted P i s =
     (case find (\<lambda>t. id' t = i) (todoList s) of
        Some todo \<Rightarrow>
          let s1 = s\<lparr>todoList := filter (\<lambda>t. id' t \<noteq> i) (todoList s)\<rparr>;
              s2 = s1\<lparr>completedList := completedList s1 @ [todo]\<rparr>;
              s3 = s2\<lparr>completedList := map (\<lambda>t. t\<lparr>completed := True\<rparr>) (completedList s2)\<rparr>;
              s4 = displayTodos (todoList s3) s3;
              s5 = displayCompleted (completedList s4) s4
          in saveTodos P s5
      | None \<Rightarrow>
          (case find (\<lambda>t. id' t = i) (completedList s) of
             Some completedTodo \<Rightarrow>
               let s1 = s\<lparr>completedList := filter (\<lambda>t. id' t \<noteq> i) (completedList s)\<rparr>;
                   s2 = s1\<lparr>todoList := todoList s1 @ [completedTodo]\<rparr>;
                   s3 = s2\<lparr>todoList := map (\<lambda>t. t\<lparr>completed := False\<rparr>) (todoList s2)\<rparr>;
                   s4 = displayTodos (todoList s3) s3;
                   s5 = displayCompleted (completedList s4) s4
               in saveTodos P s5
           | None \<Rightarrow> (None, s)))"

text \<open>
  The constructor (\<^verbatim>\<open>src/js/todo.js\<close>, lines 14-23), given what \<^verbatim>\<open>localStorage\<close> holds when
  the page starts. An exception of \<^verbatim>\<open>loadTodos\<close> leaves the constructor before the two
  binders are called.
\<close>

definition TodoController :: "platform \<Rightarrow> string option \<Rightarrow> error option \<times> app" where
  "TodoController P stored =
     (let s0 = \<lparr>todoList = [], completedList = [], localStorage = stored, calls = []\<rparr>
      in case loadTodos P s0 of
           (Some e, s1) \<Rightarrow> (Some e, s1)
         | (None, s1) \<Rightarrow> (None, s1\<lparr>calls := calls s1 @ [BindAddTodo, BindToggleCompleted]\<rparr>))"

text \<open>The typed parser and a parser of JSON values answer alike on a string.\<close>

fun agrees :: "error + stored \<Rightarrow> error + json \<Rightarrow> bool" where
  "agrees (Inl e) (Inl e') = (e = e')"
| "agrees (Inr sv) (Inr v) = represents sv v"
| "agrees a b = False"

subsection \<open>User gestures\<close>

text \<open>
  The constructor hands \<^verbatim>\<open>addTodo\<close> and \<^verbatim>\<open>toggleCompleted\<close> to the view
  (\<^verbatim>\<open>bindAddTodo\<close>, \<^verbatim>\<open>bindToggleCompleted\<close>), and the view calls them once per gesture. An
  exception that leaves a handler ends that gesture only: the page goes on with the
  state the handler left. The handler bound for adding is a parameter, so that a run
  can be made with either copy of \<^verbatim>\<open>addTodo\<close>.
\<close>

datatype gesture = AddTodo string string string | ToggleCompleted int

type_synonym add_handler =
  "platform \<Rightarrow> string \<Rightarrow> string \<Rightarrow> string \<Rightarrow> app \<Rightarrow> error option \<times> app"

definition handle :: "add_handler \<Rightarrow> platform \<Rightarrow> gesture \<Rightarrow> app \<Rightarrow> app" where
  "handle add P g s =
     (case g of
        AddTodo txt prio due \<Rightarrow> snd (add P txt prio due s)
      | ToggleCompleted i \<Rightarrow> snd (toggleCompleted P i s))"

fun run :: "add_handler \<Rightarrow> platform \<Rightarrow> gesture list \<Rightarrow> app \<Rightarrow> app" where
  "run add P [] s = s"
| "run add P (g # gs) s = run add P gs (handle add P g s)"

subsection \<open>Predicates the properties are stated with\<close>

text \<open>The \<^verbatim>\<open>completed\<close> field of every item agrees with the array that holds the item.\<close>

definition flags_consistent :: "app \<Rightarrow> bool" where
  "flags_consistent s \<longleftrightarrow>
     list_all (\<lambda>t. completed t = False) (todoList s) \<and>
     list_all (\<lambda>t. completed t = True) (completedList s)"

text \<open>The ids held in memory, active array first.\<close>

definition ids :: "app \<Rightarrow> int list" where
  "ids s = map id' (todoList s @ completedList s)"

text \<open>What the user typed for each item added, in the order of the gestures.\<close>

fun added :: "gesture list \<Rightarrow> (string \<times> string \<times> string) list" where
  "added [] = []"
| "added (AddTodo txt prio due # gs) = (txt, prio, due) # added gs"
| "added (ToggleCompleted i # gs) = added gs"

text \<open>An item without its \<^verbatim>\<open>completed\<close> flag: the part of it that no method changes.\<close>

definition content :: "todo \<Rightarrow> int \<times> string \<times> string \<times> string" where
  "content t = (id' t, text' t, priority t, dueDate t)"

text \<open>
  The items typed so far, numbered from 1 in the order they were added; and the
  statement that the two arrays hold exactly these items, each once.
\<close>

definition numbered :: "(string \<times> string \<times> string) list \<Rightarrow> (int \<times> string \<times> string \<times> string) list" where
  "numbered items = zip (map (\<lambda>k. int k + 1) [0..<length items]) items"

definition all_kept :: "app \<Rightarrow> (string \<times> string \<times> string) list \<Rightarrow> bool" where
  "all_kept s items \<longleftrightarrow>
     mset (map content (todoList s @ completedList s)) = mset (numbered items)"

subsection \<open>A platform for the worked examples\<close>

text \<open>
  The examples below run the controller on a platform that writes a list of items the
  way \<^verbatim>\<open>JSON.stringify\<close> does for texts without control characters and accepts every
  write. Its parser knows the strings the examples store, and answers on them as the
  browser does; any other string it treats as text that is not JSON.
\<close>

fun decimal :: "nat \<Rightarrow> string" where
  "decimal n =
     (if n < 10 then [char_of (48 + n)]
      else decimal (n div 10) @ [char_of (48 + n mod 10)])"

definition number :: "int \<Rightarrow> string" where
  "number i = (if i < 0 then ''-'' @ decimal (nat (- i)) else decimal (nat i))"

definition quoted :: "string \<Rightarrow> string" where
  "quoted str =
     [CHR 0x22] @
     concat (map (\<lambda>c. if c = CHR 0x22 \<or> c = CHR 0x5C then [CHR 0x5C, c] else [c]) str) @
     [CHR 0x22]"

definition boolean :: "bool \<Rightarrow> string" where
  "boolean b = (if b then ''true'' else ''false'')"

definition stringify_todo :: "todo \<Rightarrow> string" where
  "stringify_todo t =
     ''{'' @ quoted ''id'' @ '':'' @ number (id' t) @
     '','' @ quoted ''text'' @ '':'' @ quoted (text' t) @
     '','' @ quoted ''completed'' @ '':'' @ boolean (completed t) @
     '','' @ quoted ''priority'' @ '':'' @ quoted (priority t) @
     '','' @ quoted ''dueDate'' @ '':'' @ quoted (dueDate t) @ ''}''"

fun commas :: "string list \<Rightarrow> string" where
  "commas [] = []"
| "commas [x] = x"
| "commas (x # y # ys) = x @ '','' @ commas (y # ys)"

definition stringify :: "todo list \<Rightarrow> string" where
  "stringify todos = ''['' @ commas (map stringify_todo todos) @ '']''"

definition milk :: todo where
  "milk = \<lparr>id' = 1, text' = ''Buy milk'', completed = False, priority = ''high'',
           dueDate = ''2024-01-01''\<rparr>"

definition bread :: todo where
  "bread = \<lparr>id' = 2, text' = ''Bake bread'', completed = True, priority = ''low'',
            dueDate = ''2024-01-02''\<rparr>"

definition stored_example :: "todo list" where
  "stored_example = [milk, bread]"

definition example_platform :: platform where
  "example_platform =
     \<lparr>JSON_stringify = stringify,
      JSON_parse =
        (\<lambda>str. if str = stringify stored_example then Inr (Array (map Record stored_example))
               else if str = ''[]'' then Inr (Array [])
               else if str = ''[null]'' then Inr (Array [Null])
               else if str = ''{}'' then Inr NotArray
               else if str = ''null'' then Inr NotArray
               else Inl SyntaxError),
      setItem_accepts = (\<lambda>str. True)\<rparr>"

text \<open>The same parser on JSON values, with one more string: an array of two numbers.\<close>

definition example_JSON_parse :: "string \<Rightarrow> error + json" where
  "example_JSON_parse str =
     (if str = stringify stored_example then Inr (JArray (map json_of_todo stored_example))
      else if str = ''[]'' then Inr (JArray [])
      else if str = ''[null]'' then Inr (JArray [JNull])
      else if str = ''[1,2]'' then Inr (JArray [JNumber 1, JNumber 2])
      else if str = ''{}'' then Inr (JObject [])
      else if str = ''null'' then Inr JNull
      else Inl SyntaxError)"

text \<open>A state of the page with one active and one completed item, as loaded from storage.\<close>

definition example_app :: app where
  "example_app =
     \<lparr>todoList = [milk], completedList = [bread],
      localStorage = Some (stringify stored_example), calls = []\<rparr>"

text \<open>
  A state whose arrays are not what the stored string says: the memory of a page that
  has not read the storage since it was written.
\<close>

definition stale_app :: app where
  "stale_app =
     \<lparr>todoList = [], completedList = [milk\<lparr>completed := True\<rparr>],
      localStorage = Some (stringify stored_example), calls = []\<rparr>"

subsection \<open>A worked scenario\<close>

text \<open>
  Two items are added on an empty page and the first is ticked; then a third item is
  added. The states are those of \<^verbatim>\<open>src/js/todo.js\<close> unless the name says \<open>nextId\<close>.
\<close>

definition two_adds_one_toggle :: "gesture list" where
  "two_adds_one_toggle =
     [AddTodo ''Buy milk'' ''high'' ''2024-01-01'',
      AddTodo ''Bake bread'' ''low'' ''2024-01-02'',
      ToggleCompleted 1]"

definition after_first_toggle :: app where
  "after_first_toggle =
     run addTodo example_platform two_adds_one_toggle (snd (TodoController example_platform None))"

definition after_first_toggle_nextId :: app where
  "after_first_toggle_nextId =
     run addTodo_nextId example_platform two_adds_one_toggle
       (snd (TodoController example_platform None))"

definition after_third_add :: app where
  "after_third_add = snd (addTodo example_platform ''Call mum'' ''low'' ''2024-01-03'' after_first_toggle)"

text \<open>The same gestures, followed by the third item and a tick on id 2.\<close>

definition five_gestures :: "gesture list" where
  "five_gestures =
     two_adds_one_toggle @ [AddTodo ''Call mum'' ''low'' ''2024-01-03'', ToggleCompleted 2]"

section \<open>What each method does to the state\<close>

lemma saveTodos_lists:
  "todoList (snd (saveTodos P s)) = todoList s"
  "completedList (snd (saveTodos P s)) = completedList s"
  by (simp_all add: saveTodos_def Let_def)

lemma saveTodos_calls:
  "calls (snd (saveTodos P s)) =
     calls s @ [SetItem (JSON_stringify P (todoList s @ completedList s))]"
  by (simp add: saveTodos_def Let_def)

lemma toggle_from_active:
  assumes "find (\<lambda>t. id' t = i) (todoList s) = Some t"
  shows "todoList (snd (toggleCompleted P i s)) = filter (\<lambda>u. id' u \<noteq> i) (todoList s)"
    and "completedList (snd (toggleCompleted P i s)) =
           map (\<lambda>u. u\<lparr>completed := True\<rparr>) (completedList s @ [t])"
    and "calls (snd (toggleCompleted P i s)) =
           calls s @
           [DisplayTodos (filter (\<lambda>u. id' u \<noteq> i) (todoList s)),
            DisplayCompleted (map (\<lambda>u. u\<lparr>completed := True\<rparr>) (completedList s @ [t])),
            SetItem (JSON_stringify P
              (filter (\<lambda>u. id' u \<noteq> i) (todoList s) @
               map (\<lambda>u. u\<lparr>completed := True\<rparr>) (completedList s @ [t])))]"
  using assms
  by (simp_all add: toggleCompleted_def Let_def saveTodos_lists saveTodos_calls
      displayTodos_def displayCompleted_def)

lemma toggle_from_completed:
  assumes "find (\<lambda>t. id' t = i) (todoList s) = None"
    and "find (\<lambda>t. id' t = i) (completedList s) = Some t"
  shows "completedList (snd (toggleCompleted P i s)) =
           filter (\<lambda>u. id' u \<noteq> i) (completedList s)"
    and "todoList (snd (toggleCompleted P i s)) =
           map (\<lambda>u. u\<lparr>completed := False\<rparr>) (todoList s @ [t])"
    and "calls (snd (toggleCompleted P i s)) =
           calls s @
           [DisplayTodos (map (\<lambda>u. u\<lparr>completed := False\<rparr>) (todoList s @ [t])),
            DisplayCompleted (filter (\<lambda>u. id' u \<noteq> i) (completedList s)),
            SetItem (JSON_stringify P
              (map (\<lambda>u. u\<lparr>completed := False\<rparr>) (todoList s @ [t]) @
               filter (\<lambda>u. id' u \<noteq> i) (completedList s)))]"
  using assms
  by (simp_all add: toggleCompleted_def Let_def saveTodos_lists saveTodos_calls
      displayTodos_def displayCompleted_def)

lemma toggle_absent:
  assumes "find (\<lambda>t. id' t = i) (todoList s) = None"
    and "find (\<lambda>t. id' t = i) (completedList s) = None"
  shows "toggleCompleted P i s = (None, s)"
  using assms by (simp add: toggleCompleted_def)

lemma find_single:
  assumes "id' t = i" and "list_all (\<lambda>u. id' u \<noteq> i) xs"
  shows "find (\<lambda>u. id' u = i) (xs @ t # ys) = Some t"
  using assms by (induction xs) auto

lemma find_None_all: "find p xs = None \<longleftrightarrow> list_all (\<lambda>u. \<not> p u) xs"
  by (induction xs) auto

lemma stamp_true_id:
  "list_all (\<lambda>t. completed t = True) xs \<Longrightarrow> map (\<lambda>u. u\<lparr>completed := True\<rparr>) xs = xs"
  by (induction xs) auto

lemma stamp_false_id:
  "list_all (\<lambda>t. completed t = False) xs \<Longrightarrow> map (\<lambda>u. u\<lparr>completed := False\<rparr>) xs = xs"
  by (induction xs) auto

lemma filter_keeps: "list_all p xs \<Longrightarrow> filter p xs = xs"
  by (induction xs) auto

lemma filter_drops: "list_all (\<lambda>u. \<not> p u) xs \<Longrightarrow> filter p xs = []"
  by (induction xs) auto

lemma find_SomeD: "find p xs = Some x \<Longrightarrow> p x \<and> x \<in> set xs"
  by (induction xs) (auto split: if_splits)

lemma filter_no_match:
  "find (\<lambda>u. id' u = i) (filter (\<lambda>u. id' u \<noteq> i) xs) = None"
  by (simp add: find_None_iff)

lemma addTodo_lists:
  "todoList (snd (addTodo P txt prio due s)) =
     todoList s @ [\<lparr>id' = int (length (todoList s)) + 1, text' = txt, completed = False,
                    priority = prio, dueDate = due\<rparr>]"
  "completedList (snd (addTodo P txt prio due s)) = completedList s"
  by (simp_all add: addTodo_def Let_def saveTodos_lists displayTodos_def)

lemma addTodo_nextId_lists:
  "todoList (snd (addTodo_nextId P txt prio due s)) =
     todoList s @ [\<lparr>id' = int (length (todoList s)) + int (length (completedList s)) + 1,
                    text' = txt, completed = False, priority = prio, dueDate = due\<rparr>]"
  "completedList (snd (addTodo_nextId P txt prio due s)) = completedList s"
  by (simp_all add: addTodo_nextId_def Let_def saveTodos_lists displayTodos_def)

lemma toggle_lists:
  "todoList (snd (toggleCompleted P i s)) =
     (case find (\<lambda>t. id' t = i) (todoList s) of
        Some t \<Rightarrow> filter (\<lambda>u. id' u \<noteq> i) (todoList s)
      | None \<Rightarrow>
          (case find (\<lambda>t. id' t = i) (completedList s) of
             Some t \<Rightarrow> map (\<lambda>u. u\<lparr>completed := False\<rparr>) (todoList s @ [t])
           | None \<Rightarrow> todoList s))"
  "completedList (snd (toggleCompleted P i s)) =
     (case find (\<lambda>t. id' t = i) (todoList s) of
        Some t \<Rightarrow> map (\<lambda>u. u\<lparr>completed := True\<rparr>) (completedList s @ [t])
      | None \<Rightarrow>
          (case find (\<lambda>t. id' t = i) (completedList s) of
             Some t \<Rightarrow> filter (\<lambda>u. id' u \<noteq> i) (completedList s)
           | None \<Rightarrow> completedList s))"
  by (simp_all add: toggle_from_active toggle_from_completed toggle_absent
      split: option.split)

lemma new_lists:
  "todoList (snd (TodoController P None)) = []"
  "completedList (snd (TodoController P None)) = []"
  by (simp_all add: TodoController_def loadTodos_def)

subsection \<open>Loading\<close>

lemma filter_records_all: "filter_records p es = Inr ts \<Longrightarrow> list_all p ts"
proof (induction es arbitrary: ts)
  case Nil
  then show ?case by simp
next
  case (Cons x es)
  then show ?case
    by (cases x) (auto split: sum.splits if_splits)
qed

lemma filter_records_Record: "filter_records p (map Record ts) = Inr (filter p ts)"
  by (induction ts) simp_all


lemma filter_records_Inl: "filter_records p es = Inl e \<Longrightarrow> e = TypeError \<and> Null \<in> set es"
proof (induction es)
  case Nil
  then show ?case by simp
next
  case (Cons x es)
  then show ?case by (cases x) (auto split: sum.splits)
qed

lemma completed_property_todo:
  "completed_property (json_of_todo t) = Inr (Some (JBool (completed t)))"
  by (simp add: json_of_todo_def)

lemma filter_values_encoded:
  "filter_values keep (map json_of_element es) =
     (case filter_records (\<lambda>t. keep (completed t)) es of
        Inl e \<Rightarrow> Inl e
      | Inr ts \<Rightarrow> Inr (map json_of_todo ts))"
proof (induction es)
  case Nil
  then show ?case by simp
next
  case (Cons x es)
  then show ?case
    by (cases x) (simp_all add: completed_property_todo split: sum.splits)
qed

text \<open>
  On every stored string for which the typed parser stands for the parser of JSON
  values, \<open>loadTodos\<close> ends with the exception that \<open>loadTodos_throws\<close> computes.
\<close>

lemma loadTodos_throws_agrees:
  assumes "\<And>str. agrees (JSON_parse P str) (parse str)"
  shows "loadTodos_throws parse (localStorage s) = fst (loadTodos P s)"
proof (cases "localStorage s")
  case None
  then show ?thesis by (simp add: loadTodos_throws_def loadTodos_def)
next
  case (Some str)
  show ?thesis
  proof (cases "str = []")
    case True
    with Some show ?thesis by (simp add: loadTodos_throws_def loadTodos_def)
  next
    case False
    show ?thesis
    proof (cases "JSON_parse P str")
      case (Inl e)
      with assms [of str] have "parse str = Inl e"
        by (cases "parse str") simp_all
      with Some False Inl show ?thesis
        by (simp add: loadTodos_throws_def loadTodos_def)
    next
      case (Inr sv)
      with assms [of str] obtain v where v: "parse str = Inr v" "represents sv v"
        by (cases "parse str") simp_all
      show ?thesis
      proof (cases sv)
        case NotArray
        show ?thesis
          using Some False Inr NotArray v
          by (cases v) (simp_all add: loadTodos_throws_def loadTodos_def)
      next
        case (Array es)
        with v(2) have "v = JArray (map json_of_element es)" by (cases v) simp_all
        with Some False Inr Array v(1) show ?thesis
          by (simp add: loadTodos_throws_def loadTodos_def filter_values_encoded Let_def
              displayTodos_def displayCompleted_def split: sum.splits)
      qed
    qed
  qed
qed

text \<open>What \<open>loadTodos_throws\<close> gives on the strings of the examples.\<close>

lemma loadTodos_throws_examples:
  "loadTodos_throws example_JSON_parse None = None"
  "loadTodos_throws example_JSON_parse (Some []) = None"
  "loadTodos_throws example_JSON_parse (Some ''{broken'') = Some SyntaxError"
  "loadTodos_throws example_JSON_parse (Some ''{}'') = Some TypeError"
  "loadTodos_throws example_JSON_parse (Some ''null'') = Some TypeError"
  "loadTodos_throws example_JSON_parse (Some ''[null]'') = Some TypeError"
  "loadTodos_throws example_JSON_parse (Some ''[]'') = None"
  "loadTodos_throws example_JSON_parse (Some ''[1,2]'') = None"
  "loadTodos_throws example_JSON_parse (Some (stringify stored_example)) = None"
  by (simp_all add: loadTodos_throws_def example_JSON_parse_def stringify_def
      stored_example_def stringify_todo_def completed_property_todo)

text \<open>The two parsers of the examples answer alike, the array of numbers apart.\<close>

lemma example_parsers_agree:
  "str \<noteq> ''[1,2]'' \<Longrightarrow> agrees (JSON_parse example_platform str) (example_JSON_parse str)"
  by (simp add: example_platform_def example_JSON_parse_def stored_example_def)

subsection \<open>The flags are kept in step with the arrays\<close>

lemma consistent_save: "flags_consistent (snd (saveTodos P s)) = flags_consistent s"
  by (simp add: flags_consistent_def saveTodos_lists)

lemma consistent_load: "flags_consistent s \<Longrightarrow> flags_consistent (snd (loadTodos P s))"
  by (auto simp: loadTodos_def flags_consistent_def Let_def displayTodos_def
      displayCompleted_def dest: filter_records_all
      split: option.splits sum.splits stored.splits)

lemma consistent_new: "flags_consistent (snd (TodoController P stored))"
proof -
  let ?s0 = "\<lparr>todoList = [], completedList = [], localStorage = stored, calls = []\<rparr>"
  have "flags_consistent ?s0" by (simp add: flags_consistent_def)
  then have "flags_consistent (snd (loadTodos P ?s0))" by (rule consistent_load)
  then show ?thesis
    by (cases "loadTodos P ?s0"; cases "fst (loadTodos P ?s0)")
       (auto simp: TodoController_def flags_consistent_def)
qed

lemma consistent_addTodo:
  "flags_consistent s \<Longrightarrow> flags_consistent (snd (addTodo P txt prio due s))"
  by (simp add: addTodo_def Let_def saveTodos_lists displayTodos_def flags_consistent_def)

lemma consistent_addTodo_nextId:
  "flags_consistent s \<Longrightarrow> flags_consistent (snd (addTodo_nextId P txt prio due s))"
  by (simp add: addTodo_nextId_def Let_def saveTodos_lists displayTodos_def flags_consistent_def)

lemma consistent_toggle:
  assumes "flags_consistent s"
  shows "flags_consistent (snd (toggleCompleted P i s))"
proof (cases "find (\<lambda>t. id' t = i) (todoList s)")
  case (Some t)
  show ?thesis
    using assms
    by (simp add: flags_consistent_def toggle_from_active [OF Some] list_all_iff)
next
  case None
  show ?thesis
  proof (cases "find (\<lambda>t. id' t = i) (completedList s)")
    case (Some t)
    show ?thesis
      using assms
      by (simp add: flags_consistent_def toggle_from_completed [OF None Some] list_all_iff)
  next
    case n2: None
    show ?thesis using assms by (simp add: toggle_absent [OF None n2])
  qed
qed

lemma consistent_run:
  assumes add: "\<And>s txt prio due. flags_consistent s \<Longrightarrow> flags_consistent (snd (add P txt prio due s))"
  shows "flags_consistent s \<Longrightarrow> flags_consistent (run add P gs s)"
proof (induction gs arbitrary: s)
  case Nil
  then show ?case by simp
next
  case (Cons g gs)
  have "flags_consistent (handle add P g s)"
    using Cons.prems by (cases g) (simp_all add: handle_def add consistent_toggle)
  then show ?case by (simp add: Cons.IH)
qed

subsection \<open>Toggling the same id twice\<close>

lemma twice_from_active:
  assumes inv: "flags_consistent s"
    and act: "find (\<lambda>u. id' u = i) (todoList s) = Some t"
    and com: "find (\<lambda>u. id' u = i) (completedList s) = None"
  shows "todoList (snd (toggleCompleted P i (snd (toggleCompleted P i s)))) =
           filter (\<lambda>u. id' u \<noteq> i) (todoList s) @ [t]"
    and "completedList (snd (toggleCompleted P i (snd (toggleCompleted P i s)))) =
           completedList s"
proof -
  let ?s1 = "snd (toggleCompleted P i s)"
  let ?t1 = "t\<lparr>completed := True\<rparr>"
  from find_SomeD [OF act] have idt: "id' t = i" and mem: "t \<in> set (todoList s)"
    by simp_all
  from inv have allF: "list_all (\<lambda>u. completed u = False) (todoList s)"
    and allT: "list_all (\<lambda>u. completed u = True) (completedList s)"
    by (simp_all add: flags_consistent_def)
  from allF mem have ct: "completed t = False" by (simp add: list_all_iff)
  from com have noC: "list_all (\<lambda>u. id' u \<noteq> i) (completedList s)"
    by (simp add: find_None_all)
  have a1: "todoList ?s1 = filter (\<lambda>u. id' u \<noteq> i) (todoList s)"
    by (rule toggle_from_active(1) [OF act])
  have c1: "completedList ?s1 = completedList s @ [?t1]"
    by (simp add: toggle_from_active(2) [OF act] stamp_true_id [OF allT])
  have f1: "find (\<lambda>u. id' u = i) (todoList ?s1) = None"
    by (simp add: a1 filter_no_match)
  have f2: "find (\<lambda>u. id' u = i) (completedList ?s1) = Some ?t1"
    unfolding c1 using idt noC by (intro find_single) simp_all
  have "completedList (snd (toggleCompleted P i ?s1)) = completedList s"
    using idt noC by (simp add: toggle_from_completed(1) [OF f1 f2] c1 filter_keeps)
  moreover have "list_all (\<lambda>u. completed u = False) (filter (\<lambda>u. id' u \<noteq> i) (todoList s))"
    using allF by (simp add: list_all_iff)
  then have "map (\<lambda>u. u\<lparr>completed := False\<rparr>) (filter (\<lambda>u. id' u \<noteq> i) (todoList s)) =
               filter (\<lambda>u. id' u \<noteq> i) (todoList s)"
    by (rule stamp_false_id)
  then have "todoList (snd (toggleCompleted P i ?s1)) =
               filter (\<lambda>u. id' u \<noteq> i) (todoList s) @ [t]"
    using ct by (simp add: toggle_from_completed(2) [OF f1 f2] a1)
  ultimately show
    "todoList (snd (toggleCompleted P i (snd (toggleCompleted P i s)))) =
       filter (\<lambda>u. id' u \<noteq> i) (todoList s) @ [t]"
    and "completedList (snd (toggleCompleted P i (snd (toggleCompleted P i s)))) =
       completedList s"
    by simp_all
qed

lemma twice_from_completed:
  assumes inv: "flags_consistent s"
    and act: "find (\<lambda>u. id' u = i) (todoList s) = None"
    and com: "find (\<lambda>u. id' u = i) (completedList s) = Some t"
  shows "todoList (snd (toggleCompleted P i (snd (toggleCompleted P i s)))) = todoList s"
    and "completedList (snd (toggleCompleted P i (snd (toggleCompleted P i s)))) =
           filter (\<lambda>u. id' u \<noteq> i) (completedList s) @ [t]"
proof -
  let ?s1 = "snd (toggleCompleted P i s)"
  let ?t1 = "t\<lparr>completed := False\<rparr>"
  from find_SomeD [OF com] have idt: "id' t = i" and mem: "t \<in> set (completedList s)"
    by simp_all
  from inv have allF: "list_all (\<lambda>u. completed u = False) (todoList s)"
    and allT: "list_all (\<lambda>u. completed u = True) (completedList s)"
    by (simp_all add: flags_consistent_def)
  from allT mem have ct: "completed t = True" by (simp add: list_all_iff)
  from act have noA: "list_all (\<lambda>u. id' u \<noteq> i) (todoList s)"
    by (simp add: find_None_all)
  have c1: "completedList ?s1 = filter (\<lambda>u. id' u \<noteq> i) (completedList s)"
    by (rule toggle_from_completed(1) [OF act com])
  have a1: "todoList ?s1 = todoList s @ [?t1]"
    by (simp add: toggle_from_completed(2) [OF act com] stamp_false_id [OF allF])
  have f1: "find (\<lambda>u. id' u = i) (todoList ?s1) = Some ?t1"
    unfolding a1 using idt noA by (intro find_single) simp_all
  have "todoList (snd (toggleCompleted P i ?s1)) = todoList s"
    using idt noA by (simp add: toggle_from_active(1) [OF f1] a1 filter_keeps)
  moreover have "list_all (\<lambda>u. completed u = True) (filter (\<lambda>u. id' u \<noteq> i) (completedList s))"
    using allT by (simp add: list_all_iff)
  then have "map (\<lambda>u. u\<lparr>completed := True\<rparr>) (filter (\<lambda>u. id' u \<noteq> i) (completedList s)) =
               filter (\<lambda>u. id' u \<noteq> i) (completedList s)"
    by (rule stamp_true_id)
  then have "completedList (snd (toggleCompleted P i ?s1)) =
               filter (\<lambda>u. id' u \<noteq> i) (completedList s) @ [t]"
    using ct by (simp add: toggle_from_active(2) [OF f1] c1)
  ultimately show
    "todoList (snd (toggleCompleted P i (snd (toggleCompleted P i s)))) = todoList s"
    and "completedList (snd (toggleCompleted P i (snd (toggleCompleted P i s)))) =
       filter (\<lambda>u. id' u \<noteq> i) (completedList s) @ [t]"
    by simp_all
qed

subsection \<open>The scenario, step by step\<close>

lemma run_append: "run add P (gs @ hs) s = run add P hs (run add P gs s)"
  by (induction gs arbitrary: s) simp_all

lemma after_first_toggle_lists:
  "todoList after_first_toggle =
     [\<lparr>id' = 2, text' = ''Bake bread'', completed = False, priority = ''low'',
       dueDate = ''2024-01-02''\<rparr>]"
  "completedList after_first_toggle =
     [\<lparr>id' = 1, text' = ''Buy milk'', completed = True, priority = ''high'',
       dueDate = ''2024-01-01''\<rparr>]"
  by (simp_all add: after_first_toggle_def two_adds_one_toggle_def handle_def
      addTodo_lists toggle_lists new_lists)

lemma after_first_toggle_nextId_lists:
  "todoList after_first_toggle_nextId =
     [\<lparr>id' = 2, text' = ''Bake bread'', completed = False, priority = ''low'',
       dueDate = ''2024-01-02''\<rparr>]"
  "completedList after_first_toggle_nextId =
     [\<lparr>id' = 1, text' = ''Buy milk'', completed = True, priority = ''high'',
       dueDate = ''2024-01-01''\<rparr>]"
  by (simp_all add: after_first_toggle_nextId_def two_adds_one_toggle_def handle_def
      addTodo_nextId_lists toggle_lists new_lists)

lemma after_third_add_lists:
  "todoList after_third_add =
     [\<lparr>id' = 2, text' = ''Bake bread'', completed = False, priority = ''low'',
       dueDate = ''2024-01-02''\<rparr>,
      \<lparr>id' = 2, text' = ''Call mum'', completed = False, priority = ''low'',
       dueDate = ''2024-01-03''\<rparr>]"
  "completedList after_third_add =
     [\<lparr>id' = 1, text' = ''Buy milk'', completed = True, priority = ''high'',
       dueDate = ''2024-01-01''\<rparr>]"
  by (simp_all add: after_third_add_def addTodo_lists after_first_toggle_lists)

lemma addTodo_nextId_fresh_id:
  "map id' (todoList (snd (addTodo_nextId example_platform ''Call mum'' ''low'' ''2024-01-03''
                             after_first_toggle_nextId))) = [2, 3]"
  by (simp add: addTodo_nextId_lists after_first_toggle_nextId_lists)

lemma five_gestures_run:
  "run addTodo example_platform five_gestures (snd (TodoController example_platform None)) =
     snd (toggleCompleted example_platform 2 after_third_add)"
  by (simp add: five_gestures_def run_append handle_def after_third_add_def
      after_first_toggle_def)

subsection \<open>The documented copy keeps every item\<close>

text \<open>
  With \<^verbatim>\<open>nextId\<close> counting both arrays, a page that starts with nothing stored numbers
  its items 1, 2, 3, ... and a toggle moves exactly one item: the arrays together always
  hold every item that was added, once, under distinct ids.
\<close>

lemma numbered_snoc: "numbered (items @ [x]) = numbered items @ [(int (length items) + 1, x)]"
  by (simp add: numbered_def)

lemma length_numbered: "length (numbered items) = length items"
  by (simp add: numbered_def)

lemma map_fst_numbered: "map fst (numbered items) = map (\<lambda>k. int k + 1) [0..<length items]"
  by (simp add: numbered_def)

lemma distinct_numbers: "distinct (map (\<lambda>k. int k + 1) [0..<n])"
  by (simp add: distinct_map inj_on_def)

lemma all_kept_length:
  assumes "all_kept s items"
  shows "length (todoList s) + length (completedList s) = length items"
proof -
  have "size (mset (map content (todoList s @ completedList s))) = size (mset (numbered items))"
    using assms by (simp add: all_kept_def)
  then show ?thesis by (simp add: length_numbered)
qed

lemma all_kept_distinct:
  assumes "all_kept s items"
  shows "distinct (ids s)"
proof -
  have "ids s = map fst (map content (todoList s @ completedList s))"
    by (simp add: ids_def content_def comp_def)
  then have "mset (ids s) = mset (map fst (map content (todoList s @ completedList s)))"
    by (rule arg_cong)
  also have "\<dots> = image_mset fst (mset (map content (todoList s @ completedList s)))"
    by (rule mset_map)
  also have "\<dots> = image_mset fst (mset (numbered items))"
    using assms by (simp add: all_kept_def)
  also have "\<dots> = mset (map fst (numbered items))" by simp
  finally have "mset (ids s) = mset (map (\<lambda>k. int k + 1) [0..<length items])"
    by (simp only: map_fst_numbered)
  then show ?thesis
    using distinct_numbers mset_eq_imp_distinct_iff by blast
qed

lemma mset_find_filter:
  assumes "distinct (map id' xs)" and "find (\<lambda>u. id' u = i) xs = Some t"
  shows "mset xs = add_mset t (mset (filter (\<lambda>u. id' u \<noteq> i) xs))"
  using assms
proof (induction xs)
  case Nil
  then show ?case by simp
next
  case (Cons x xs)
  show ?case
  proof (cases "id' x = i")
    case True
    from Cons.prems(1) have "id' x \<notin> id' ` set xs" by simp
    with True have "list_all (\<lambda>u. id' u \<noteq> i) xs"
      unfolding list_all_iff by (metis imageI)
    moreover from Cons.prems(2) True have "t = x" by simp
    ultimately have "t = x" and "list_all (\<lambda>u. id' u \<noteq> i) xs" by simp_all
    then show ?thesis using True by (simp add: filter_keeps)
  next
    case False
    with Cons show ?thesis by simp
  qed
qed

lemma content_stamp: "content (u\<lparr>completed := b\<rparr>) = content u"
  by (simp add: content_def)

lemma all_kept_toggle:
  assumes "all_kept s items"
  shows "all_kept (snd (toggleCompleted P i s)) items"
proof -
  from all_kept_distinct [OF assms]
  have dA: "distinct (map id' (todoList s))" and dC: "distinct (map id' (completedList s))"
    by (simp_all add: ids_def)
  show ?thesis
  proof (cases "find (\<lambda>u. id' u = i) (todoList s)")
    case (Some t)
    have "mset (map content (todoList s)) =
            add_mset (content t) (mset (map content (filter (\<lambda>u. id' u \<noteq> i) (todoList s))))"
      using mset_find_filter [OF dA Some] by (metis image_mset_add_mset mset_map)
    then show ?thesis
      using assms
      by (simp add: all_kept_def toggle_from_active [OF Some] comp_def content_stamp)
  next
    case None
    show ?thesis
    proof (cases "find (\<lambda>u. id' u = i) (completedList s)")
      case (Some t)
      have "mset (map content (completedList s)) =
              add_mset (content t)
                (mset (map content (filter (\<lambda>u. id' u \<noteq> i) (completedList s))))"
        using mset_find_filter [OF dC Some] by (metis image_mset_add_mset mset_map)
      then show ?thesis
        using assms
        by (simp add: all_kept_def toggle_from_completed [OF None Some] comp_def content_stamp)
    next
      case n2: None
      show ?thesis using assms by (simp add: toggle_absent [OF None n2])
    qed
  qed
qed

lemma all_kept_addTodo_nextId:
  assumes "all_kept s items"
  shows "all_kept (snd (addTodo_nextId P tx prio due s)) (items @ [(tx, prio, due)])"
  using assms all_kept_length [OF assms, symmetric]
  by (simp add: all_kept_def addTodo_nextId_lists numbered_snoc content_def)

lemma all_kept_run:
  "all_kept s items \<Longrightarrow> all_kept (run addTodo_nextId P gs s) (items @ added gs)"
proof (induction gs arbitrary: s items)
  case Nil
  then show ?case by simp
next
  case (Cons g gs)
  show ?case
  proof (cases g)
    case (AddTodo tx prio due)
    from Cons.prems have "all_kept (handle addTodo_nextId P g s) (items @ [(tx, prio, due)])"
      by (simp add: AddTodo handle_def all_kept_addTodo_nextId)
    from Cons.IH [OF this] show ?thesis by (simp add: AddTodo)
  next
    case (ToggleCompleted i)
    from Cons.prems have "all_kept (handle addTodo_nextId P g s) items"
      by (simp add: ToggleCompleted handle_def all_kept_toggle)
    from Cons.IH [OF this] show ?thesis by (simp add: ToggleCompleted)
  qed
qed

lemma nextId_keeps_every_item:
  shows "mset (map content (todoList (run addTodo_nextId P gs (snd (TodoController P None))) @
                      completedList (run addTodo_nextId P gs (snd (TodoController P None))))) =
     mset (numbered (added gs))"
    and "distinct (ids (run addTodo_nextId P gs (snd (TodoController P None))))"
proof -
  have "all_kept (snd (TodoController P None)) []"
    by (simp add: all_kept_def new_lists numbered_def)
  from all_kept_run [OF this, of P gs]
  have k: "all_kept (run addTodo_nextId P gs (snd (TodoController P None))) (added gs)"
    by simp
  then show "mset (map content (todoList (run addTodo_nextId P gs (snd (TodoController P None))) @
                      completedList (run addTodo_nextId P gs (snd (TodoController P None))))) =
     mset (numbered (added gs))"
    by (simp add: all_kept_def)
  from k show "distinct (ids (run addTodo_nextId P gs (snd (TodoController P None))))"
    by (rule all_kept_distinct)
qed

subsection \<open>Toggling when the ids are distinct\<close>

text \<open>
  When no two items of an array share an id, \<^verbatim>\<open>filter\<close> removes the one item that
  \<^verbatim>\<open>find\<close> returned and nothing else.
\<close>

lemma filter_distinct_remove1:
  assumes "distinct (map id' xs)" and "find (\<lambda>u. id' u = i) xs = Some t"
  shows "filter (\<lambda>u. id' u \<noteq> i) xs = remove1 t xs"
  using assms
proof (induction xs)
  case Nil
  then show ?case by simp
next
  case (Cons x xs)
  show ?case
  proof (cases "id' x = i")
    case True
    from Cons.prems(1) have "id' x \<notin> id' ` set xs" by simp
    with True have "list_all (\<lambda>u. id' u \<noteq> i) xs"
      unfolding list_all_iff by (metis imageI)
    moreover from Cons.prems(2) True have "t = x" by simp
    ultimately show ?thesis using True by (simp add: filter_keeps)
  next
    case False
    with Cons.prems have f: "find (\<lambda>u. id' u = i) xs = Some t" and d: "distinct (map id' xs)"
      by simp_all
    from find_SomeD [OF f] False have "x \<noteq> t" by auto
    with False Cons.IH [OF d f] show ?thesis by simp
  qed
qed

lemma distinct_ids_other_list:
  assumes "distinct (ids s)" and "find (\<lambda>u. id' u = i) (todoList s) = Some t"
  shows "find (\<lambda>u. id' u = i) (completedList s) = None"
proof -
  from find_SomeD [OF assms(2)] have "i \<in> id' ` set (todoList s)" by auto
  with assms(1) have "i \<notin> id' ` set (completedList s)"
    by (auto simp: ids_def)
  then show ?thesis by (auto simp: find_None_iff)
qed

lemma toggle_single_from_active:
  assumes "distinct (map id' (todoList s))"
    and "find (\<lambda>u. id' u = i) (todoList s) = Some t"
  shows "todoList (snd (toggleCompleted P i s)) = remove1 t (todoList s)"
    and "completedList (snd (toggleCompleted P i s)) =
           map (\<lambda>u. u\<lparr>completed := True\<rparr>) (completedList s) @ [t\<lparr>completed := True\<rparr>]"
  using assms
  by (simp_all add: toggle_from_active filter_distinct_remove1)

lemma toggle_single_from_completed:
  assumes "distinct (map id' (completedList s))"
    and "find (\<lambda>u. id' u = i) (todoList s) = None"
    and "find (\<lambda>u. id' u = i) (completedList s) = Some t"
  shows "completedList (snd (toggleCompleted P i s)) = remove1 t (completedList s)"
    and "todoList (snd (toggleCompleted P i s)) =
           map (\<lambda>u. u\<lparr>completed := False\<rparr>) (todoList s) @ [t\<lparr>completed := False\<rparr>]"
  using assms
  by (simp_all add: toggle_from_completed filter_distinct_remove1)

lemma twice_single_from_active:
  assumes "flags_consistent s" and "distinct (ids s)"
    and "find (\<lambda>u. id' u = i) (todoList s) = Some t"
  shows "todoList (snd (toggleCompleted P i (snd (toggleCompleted P i s)))) =
           remove1 t (todoList s) @ [t]"
    and "completedList (snd (toggleCompleted P i (snd (toggleCompleted P i s)))) =
           completedList s"
proof -
  from assms(2) have d: "distinct (map id' (todoList s))" by (simp add: ids_def)
  note n = distinct_ids_other_list [OF assms(2,3)]
  show "todoList (snd (toggleCompleted P i (snd (toggleCompleted P i s)))) =
           remove1 t (todoList s) @ [t]"
    by (simp add: twice_from_active(1) [OF assms(1,3) n] filter_distinct_remove1 [OF d assms(3)])
  show "completedList (snd (toggleCompleted P i (snd (toggleCompleted P i s)))) =
           completedList s"
    by (rule twice_from_active(2) [OF assms(1,3) n])
qed

lemma twice_single_from_completed:
  assumes "flags_consistent s" and "distinct (ids s)"
    and "find (\<lambda>u. id' u = i) (completedList s) = Some t"
  shows "todoList (snd (toggleCompleted P i (snd (toggleCompleted P i s)))) = todoList s"
    and "completedList (snd (toggleCompleted P i (snd (toggleCompleted P i s)))) =
           remove1 t (completedList s) @ [t]"
proof -
  from assms(2) have d: "distinct (map id' (completedList s))" by (simp add: ids_def)
  from find_SomeD [OF assms(3)] have "i \<in> id' ` set (completedList s)" by auto
  with assms(2) have "i \<notin> id' ` set (todoList s)"
    by (auto simp: ids_def)
  then have n: "find (\<lambda>u. id' u = i) (todoList s) = None"
    by (auto simp: find_None_iff)
  show "todoList (snd (toggleCompleted P i (snd (toggleCompleted P i s)))) = todoList s"
    by (rule twice_from_completed(1) [OF assms(1) n assms(3)])
  show "completedList (snd (toggleCompleted P i (snd (toggleCompleted P i s)))) =
           remove1 t (completedList s) @ [t]"
    by (simp add: twice_from_completed(2) [OF assms(1) n assms(3)]
        filter_distinct_remove1 [OF d assms(3)])
qed

text \<open>
  The documented copy, on a page that starts with nothing stored, is always in such a
  state: the flags agree with the arrays and the ids are distinct.
\<close>

lemma nextId_states:
  "flags_consistent (run addTodo_nextId P gs (snd (TodoController P None)))"
  "distinct (ids (run addTodo_nextId P gs (snd (TodoController P None))))"
  by (simp_all add: consistent_new consistent_run consistent_addTodo_nextId
      nextId_keeps_every_item(2))

section \<open>The properties\<close>

text \<open>
  C1. The specification has \<^verbatim>\<open>addTodo\<close> give the new item the id
  \<^verbatim>\<open>active.length + completed.length + 1\<close>, so that after two adds and a toggle of id 1
  the third item gets id 3. The documented copy does so (\<open>addTodo_nextId_lists\<close>,
  \<open>addTodo_nextId_fresh_id\<close>). \<^verbatim>\<open>src/js/todo.js\<close> counts the active array only: with
  id 2 active and id 1 completed, its third item gets the id 2 a second time.
\<close>

theorem addTodo_reuses_id:
  "map id' (todoList after_first_toggle) = [2] \<and>
   map id' (completedList after_first_toggle) = [1] \<and>
   map id' (todoList (snd (addTodo example_platform ''Call mum'' ''low'' ''2024-01-03''
                             after_first_toggle))) = [2, 2]"
  by (simp add: addTodo_lists after_first_toggle_lists)

text \<open>
  C2. The specification has every item in exactly one of the two arrays after any
  sequence of adds and toggles from the empty state: none duplicated, none lost. The
  documented copy keeps that (\<open>nextId_keeps_every_item\<close>). In \<^verbatim>\<open>src/js/todo.js\<close> the
  five gestures of the scenario add three items and leave two: the tick on id 2 filters
  both items numbered 2 out of the active array and pushes only the first of them on
  the completed array.
\<close>

theorem third_item_lost:
  "map fst (added five_gestures) = [''Buy milk'', ''Bake bread'', ''Call mum''] \<and>
   todoList (run addTodo example_platform five_gestures
               (snd (TodoController example_platform None))) = [] \<and>
   map text' (completedList (run addTodo example_platform five_gestures
                               (snd (TodoController example_platform None)))) =
     [''Buy milk'', ''Bake bread'']"
  unfolding five_gestures_run
  by (simp add: toggle_lists after_third_add_lists five_gestures_def two_adds_one_toggle_def)

text \<open>
  C3. The specification has two toggles of an id that one array holds bring that item
  back to its array with its flag as it was, and leave every other item as it was. It is
  so when the ids are distinct (\<open>twice_single_from_active\<close>,
  \<open>twice_single_from_completed\<close>), as they always are in the
  documented copy (\<open>nextId_states\<close>). In \<^verbatim>\<open>src/js/todo.js\<close>, in the scenario's state with two
  active items numbered 2, two toggles of id 2 bring back ``Bake bread'' and leave
  ``Call mum'' in neither array.
\<close>

theorem two_toggles_lose_item:
  "map id' (todoList after_third_add) = [2, 2] \<and>
   map id' (completedList after_third_add) = [1] \<and>
   map text' (todoList after_third_add) = [''Bake bread'', ''Call mum''] \<and>
   map text' (completedList after_third_add) = [''Buy milk''] \<and>
   map text' (todoList (snd (toggleCompleted example_platform 2
                (snd (toggleCompleted example_platform 2 after_third_add))))) =
     [''Bake bread''] \<and>
   map text' (completedList (snd (toggleCompleted example_platform 2
                (snd (toggleCompleted example_platform 2 after_third_add))))) =
     [''Buy milk'']"
  by (simp add: toggle_lists after_third_add_lists)

text \<open>
  C4. Let the flags of a state agree with its arrays, let the browser accept the write,
  and let \<^verbatim>\<open>JSON.parse\<close> give back, from the non-empty string \<^verbatim>\<open>JSON.stringify\<close> wrote, the
  array of the records that were written. Then \<^verbatim>\<open>saveTodos\<close> throws nothing, and
  \<^verbatim>\<open>loadTodos\<close> run afterwards on whatever arrays \<open>m\<close> are in memory, or by a new
  controller on a fresh page, throws nothing and rebuilds from the stored string the
  arrays that were saved: the same items with the same five fields, in the same array
  and in the same order.
\<close>

theorem save_then_load:
  assumes "flags_consistent s"
    and "setItem_accepts P (JSON_stringify P (todoList s @ completedList s))"
    and "JSON_stringify P (todoList s @ completedList s) \<noteq> []"
    and "JSON_parse P (JSON_stringify P (todoList s @ completedList s)) =
           Inr (Array (map Record (todoList s @ completedList s)))"
    and "localStorage m = localStorage (snd (saveTodos P s))"
  shows "fst (saveTodos P s) = None \<and>
         fst (loadTodos P m) = None \<and>
         todoList (snd (loadTodos P m)) = todoList s \<and>
         completedList (snd (loadTodos P m)) = completedList s \<and>
         fst (TodoController P (localStorage (snd (saveTodos P s)))) = None \<and>
         todoList (snd (TodoController P (localStorage (snd (saveTodos P s))))) = todoList s \<and>
         completedList (snd (TodoController P (localStorage (snd (saveTodos P s))))) =
           completedList s"
proof -
  let ?str = "JSON_stringify P (todoList s @ completedList s)"
  from assms(1) have allF: "list_all (\<lambda>u. completed u = False) (todoList s)"
    and allT: "list_all (\<lambda>u. completed u = True) (completedList s)"
    by (simp_all add: flags_consistent_def)
  have part:
    "filter (\<lambda>t. \<not> completed t) (todoList s @ completedList s) = todoList s"
    "filter (\<lambda>t. completed t) (todoList s @ completedList s) = completedList s"
    using allF allT by (simp_all add: filter_keeps filter_drops)
  have saved: "saveTodos P s =
      (None, s\<lparr>calls := calls s @ [SetItem ?str], localStorage := Some ?str\<rparr>)"
    using assms(2) by (simp add: saveTodos_def Let_def)
  have fa: "filter_records (\<lambda>t. \<not> completed t)
      (map Record (todoList s @ completedList s)) = Inr (todoList s)"
    by (simp only: filter_records_Record part)
  have fc: "filter_records (\<lambda>t. completed t)
      (map Record (todoList s @ completedList s)) = Inr (completedList s)"
    by (simp only: filter_records_Record part)
  have loaded: "fst (loadTodos P n) = None \<and> todoList (snd (loadTodos P n)) = todoList s \<and>
      completedList (snd (loadTodos P n)) = completedList s"
    if "localStorage n = Some ?str" for n
    using that assms(3,4)
    by (simp add: loadTodos_def Let_def displayTodos_def displayCompleted_def fa fc
        del: map_append)
  have m: "localStorage m = Some ?str"
    using assms(5) by (simp add: saved)
  have new: "fst (TodoController P (Some ?str)) = None \<and>
      todoList (snd (TodoController P (Some ?str))) = todoList s \<and>
      completedList (snd (TodoController P (Some ?str))) = completedList s"
    using loaded [of "\<lparr>todoList = [], completedList = [], localStorage = Some ?str, calls = []\<rparr>"]
    by (cases "loadTodos P \<lparr>todoList = [], completedList = [], localStorage = Some ?str,
        calls = []\<rparr>") (simp add: TodoController_def)
  show ?thesis
    using loaded [OF m] new by (simp add: saved)
qed

theorem save_then_load_witness:
  "flags_consistent example_app \<and>
   setItem_accepts example_platform
     (JSON_stringify example_platform (todoList example_app @ completedList example_app)) \<and>
   JSON_stringify example_platform (todoList example_app @ completedList example_app) \<noteq> [] \<and>
   JSON_parse example_platform
     (JSON_stringify example_platform (todoList example_app @ completedList example_app)) =
     Inr (Array (map Record (todoList example_app @ completedList example_app))) \<and>
   localStorage stale_app = localStorage (snd (saveTodos example_platform example_app)) \<and>
   todoList stale_app = [] \<and>
   fst (saveTodos example_platform example_app) = None \<and>
   fst (loadTodos example_platform stale_app) = None \<and>
   todoList (snd (loadTodos example_platform stale_app)) = [milk] \<and>
   completedList (snd (loadTodos example_platform stale_app)) = [bread] \<and>
   fst (TodoController example_platform
          (localStorage (snd (saveTodos example_platform example_app)))) = None \<and>
   todoList (snd (TodoController example_platform
          (localStorage (snd (saveTodos example_platform example_app))))) = [milk] \<and>
   completedList (snd (TodoController example_platform
          (localStorage (snd (saveTodos example_platform example_app))))) = [bread]"
proof -
  have c: "flags_consistent example_app"
    by (simp add: flags_consistent_def example_app_def milk_def bread_def)
  have a: "setItem_accepts example_platform
     (JSON_stringify example_platform (todoList example_app @ completedList example_app))"
    by (simp add: example_platform_def)
  have n: "JSON_stringify example_platform (todoList example_app @ completedList example_app) \<noteq> []"
    by (simp add: example_platform_def stringify_def)
  have p: "JSON_parse example_platform
     (JSON_stringify example_platform (todoList example_app @ completedList example_app)) =
     Inr (Array (map Record (todoList example_app @ completedList example_app)))"
    by (simp add: example_platform_def example_app_def stored_example_def)
  have m: "localStorage stale_app = localStorage (snd (saveTodos example_platform example_app))"
    by (simp add: stale_app_def saveTodos_def Let_def example_platform_def example_app_def
        stored_example_def)
  have e: "todoList stale_app = []"
    by (simp add: stale_app_def)
  show ?thesis
    using c a n p m e save_then_load [OF c a n p m]
    by (simp add: example_app_def)
qed

text \<open>
  C5. The specification has \<^verbatim>\<open>toggleCompleted\<close> remove exactly the one entry found and
  append it at the tail of the other array, whose items are all stamped. It is so when
  the ids of the array are distinct (\<open>toggle_single_from_active\<close>,
  \<open>toggle_single_from_completed\<close>), as they always are in the documented copy
  (\<open>nextId_states\<close>). In \<^verbatim>\<open>src/js/todo.js\<close>, in the scenario's state with two active items
  numbered 2, one call removes both and appends one.
\<close>

theorem toggleCompleted_removes_two_entries:
  "map id' (todoList after_third_add) = [2, 2] \<and>
   map id' (completedList after_third_add) = [1] \<and>
   map id' (todoList (snd (toggleCompleted example_platform 2 after_third_add))) = [] \<and>
   map id' (completedList (snd (toggleCompleted example_platform 2 after_third_add))) = [1, 2]"
  by (simp add: toggle_lists after_third_add_lists)

text \<open>
  C6. An id held by neither array: \<^verbatim>\<open>toggleCompleted\<close> throws nothing and returns the
  state as it was. The arrays, the stored string and the list of calls are the same, so
  nothing was rendered and nothing was written.
\<close>

theorem toggleCompleted_unknown_id:
  assumes "i \<notin> id' ` set (todoList s)" and "i \<notin> id' ` set (completedList s)"
  shows "toggleCompleted P i s = (None, s)"
proof -
  have "find (\<lambda>t. id' t = i) (todoList s) = None"
    using assms(1) by (auto simp: find_None_iff)
  moreover have "find (\<lambda>t. id' t = i) (completedList s) = None"
    using assms(2) by (auto simp: find_None_iff)
  ultimately show ?thesis by (rule toggle_absent)
qed

theorem toggleCompleted_unknown_id_witness:
  "7 \<notin> id' ` set (todoList example_app) \<and> 7 \<notin> id' ` set (completedList example_app) \<and>
   toggleCompleted example_platform 7 example_app = (None, example_app)"
proof -
  have a: "7 \<notin> id' ` set (todoList example_app)"
    by (simp add: example_app_def milk_def)
  have b: "7 \<notin> id' ` set (completedList example_app)"
    by (simp add: example_app_def bread_def)
  show ?thesis using a b toggleCompleted_unknown_id [OF a b, of example_platform] by simp
qed

text \<open>
  C7. Whatever the storage holds when the page starts, and whatever gestures follow,
  every item of the active array has \<^verbatim>\<open>completed = false\<close> and every item of the
  completed array has \<^verbatim>\<open>completed = true\<close>: after the constructor's \<^verbatim>\<open>loadTodos\<close>, and
  after every \<^verbatim>\<open>addTodo\<close> (either copy) and \<^verbatim>\<open>toggleCompleted\<close> that follows.
\<close>

theorem flags_follow_lists:
  "flags_consistent (snd (TodoController P stored)) \<and>
   flags_consistent (run addTodo P gs (snd (TodoController P stored))) \<and>
   flags_consistent (run addTodo_nextId P gs (snd (TodoController P stored)))"
  by (simp add: consistent_new consistent_run consistent_addTodo consistent_addTodo_nextId)




text \<open>
  C9. With nothing stored under the key, \<^verbatim>\<open>loadTodos\<close> returns the state as it was, so it
  makes no call on the view; the constructor, which starts from two empty arrays, ends
  with both arrays empty and has called the two binders only.
\<close>

theorem loadTodos_nothing_stored:
  assumes "localStorage s = None"
  shows "loadTodos P s = (None, s) \<and>
         TodoController P None =
           (None, \<lparr>todoList = [], completedList = [], localStorage = None,
                   calls = [BindAddTodo, BindToggleCompleted]\<rparr>)"
  using assms by (simp add: loadTodos_def TodoController_def)

theorem loadTodos_nothing_stored_witness:
  "localStorage (example_app\<lparr>localStorage := None\<rparr>) = None \<and>
   loadTodos example_platform (example_app\<lparr>localStorage := None\<rparr>) =
     (None, example_app\<lparr>localStorage := None\<rparr>) \<and>
   TodoController example_platform None =
     (None, \<lparr>todoList = [], completedList = [], localStorage = None,
             calls = [BindAddTodo, BindToggleCompleted]\<rparr>)"
  using loadTodos_nothing_stored [of "example_app\<lparr>localStorage := None\<rparr>" example_platform]
  by simp

text \<open>
  C10. \<^verbatim>\<open>saveTodos\<close> leaves both arrays as they were, item by item and in the same order,
  whether or not the browser accepts the write.
\<close>

theorem saveTodos_keeps_memory:
  "todoList (snd (saveTodos P s)) = todoList s \<and>
   completedList (snd (saveTodos P s)) = completedList s"
  by (simp add: saveTodos_def Let_def)

end
